theory Spec2Isabelle
  imports Main "HOL-Library.Sublist" "HOL-Library.AList" "HOL-Library.Multiset"
begin

section \<open>Python strings\<close>

text \<open>
  A Python \<open>str\<close> is modelled as a \<open>string\<close>: a list of characters with code points
  0..255. On these code points \<open>str.isspace\<close>, \<open>str.lower\<close>, \<open>str.strip\<close> and
  \<open>str.split\<close> behave as defined below. The operator \<open>k in s\<close> on strings is
  \<^const>\<open>sublist\<close> (contiguous containment).
\<close>

definition is_space :: "char \<Rightarrow> bool" where
  "is_space c = (let n = (of_char c :: nat) in
     (9 \<le> n \<and> n \<le> 13) \<or> (28 \<le> n \<and> n \<le> 32) \<or> n = 133 \<or> n = 160)"

definition lower_char :: "char \<Rightarrow> char" where
  "lower_char c = (let n = (of_char c :: nat) in
     if (65 \<le> n \<and> n \<le> 90) \<or> (192 \<le> n \<and> n \<le> 214) \<or> (216 \<le> n \<and> n \<le> 222)
     then char_of (n + 32) else c)"

definition lower :: "string \<Rightarrow> string" where
  "lower s = map lower_char s"

definition strip :: "string \<Rightarrow> string" where
  "strip s = rev (dropWhile is_space (rev (dropWhile is_space s)))"

definition nl :: "string" where
  "nl = [CHR 0x0A]"

definition indent :: "string" where
  "indent = replicate 12 (CHR '' '')"

definition quoted :: "string \<Rightarrow> string" where
  "quoted s = [CHR 0x27] @ s @ [CHR 0x27]"

section \<open>Exceptions\<close>

text \<open>
  Every exception the modelled code can raise is a value. \<open>ExternalError\<close> is whatever
  the generative-model client raises; \<open>AIServiceError\<close> and \<open>DatabaseError\<close> carry
  their message and the exception they were raised \<open>from\<close>; \<open>HTTPException\<close> carries
  the status code and the detail; \<open>RequestValidationError\<close> is the framework's
  rejection of a query parameter outside its declared bounds; \<open>SQLAlchemyError\<close> is
  what the database layer raises when the store refuses a statement.
\<close>

datatype exn =
    ExternalError string
  | IndexError
  | ValueError string
  | AIServiceError string exn
  | DatabaseError string exn
  | HTTPException nat string
  | RequestValidationError
  | SQLAlchemyError string

fun str_exn :: "exn \<Rightarrow> string" where
  "str_exn (ExternalError m) = m"
| "str_exn IndexError = ''list index out of range''"
| "str_exn (ValueError m) = m"
| "str_exn (AIServiceError m c) = m"
| "str_exn (DatabaseError m c) = m"
| "str_exn (HTTPException code detail) = detail"
| "str_exn RequestValidationError = ''validation error''"
| "str_exn (SQLAlchemyError m) = m"

section \<open>Constants\<close>

definition VALID_SENTIMENTS :: "string list" where
  \<comment> \<open>Modelled from the spec: \<open>core/constants.py\<close> is not among the sources; the spec fixes
      the valid sentiment set to positive, negative, neutral.\<close>
  "VALID_SENTIMENTS = [''positive'', ''negative'', ''neutral'']"

text \<open>
  The other constants of \<open>core/constants.py\<close> are parameters of the functions that use
  them: the set of valid sources, the cap on a summarization batch and the maximum
  page size.
\<close>

record constants =
  VALID_SOURCES :: "string list"
  MAX_FEEDBACK_FOR_SUMMARY :: nat
  MAX_PAGE_SIZE :: nat

section \<open>The AI service\<close>

text \<open>
  \<open>self.model.generate_content(prompt)\<close> followed by \<open>response.text\<close> is a parameter
  \<open>gen\<close>: it either raises (\<open>Inl\<close>) or yields the response text (\<open>Inr\<close>). Every function
  that may call the model returns, next to its outcome, the list of prompts it sent.
\<close>

type_synonym model = "string \<Rightarrow> exn + string"

definition negative_keywords :: "string list" where
  "negative_keywords = [''bad'', ''terrible'', ''awful'', ''hate'', ''disappointed'',
     ''frustrated'', ''broken'', ''bug'', ''error'', ''crash'', ''slow'', ''worst'']"

definition positive_keywords :: "string list" where
  "positive_keywords = [''love'', ''great'', ''excellent'', ''amazing'', ''perfect'',
     ''wonderful'', ''fantastic'', ''best'', ''happy'', ''satisfied'', ''good'']"

definition keyword_count :: "string list \<Rightarrow> string \<Rightarrow> int" where
  \<comment> \<open>\<open>sum(1 for keyword in keywords if keyword in text_lower)\<close>\<close>
  "keyword_count keywords text_lower =
     sum_list (map (\<lambda>keyword. 1) (filter (\<lambda>keyword. sublist keyword text_lower) keywords))"

definition fallback_sentiment :: "string \<Rightarrow> string" where
  "fallback_sentiment text =
     (let text_lower = lower text;
          negative_count = keyword_count negative_keywords text_lower;
          positive_count = keyword_count positive_keywords text_lower
      in if negative_count > positive_count then ''negative''
         else if positive_count > negative_count then ''positive''
         else ''neutral'')"

definition sentiment_prompt :: "string \<Rightarrow> string" where
  "sentiment_prompt text_snippet =
     ''Analyze the sentiment of the following customer feedback. '' @ nl @
     indent @ ''Respond with ONLY one word: '' @ quoted ''positive'' @ '', '' @
       quoted ''negative'' @ '', or '' @ quoted ''neutral'' @ ''.'' @ nl @
     indent @ nl @
     indent @ ''Feedback: '' @ text_snippet @ nl @
     indent @ nl @
     indent @ ''Sentiment:''"

definition first_word :: "string \<Rightarrow> exn + string" where
  \<comment> \<open>\<open>s.split()[0]\<close>\<close>
  "first_word s =
     (let t = dropWhile is_space s
      in if t = [] then Inl IndexError else Inr (takeWhile (\<lambda>c. \<not> is_space c) t))"

definition analyze_sentiment_try :: "model \<Rightarrow> string \<Rightarrow> (exn + string) \<times> string list" where
  \<comment> \<open>the body of the \<open>try\<close> block of \<open>analyze_sentiment\<close>\<close>
  "analyze_sentiment_try gen text =
     (let text_snippet = (if length text > 1000 then take 1000 text else text);
          prompt = sentiment_prompt text_snippet
      in case gen prompt of
           Inl e \<Rightarrow> (Inl e, [prompt])
         | Inr response_text \<Rightarrow>
             (case first_word (lower (strip response_text)) of
                Inl e \<Rightarrow> (Inl e, [prompt])
              | Inr sentiment \<Rightarrow>
                  if sentiment \<in> set VALID_SENTIMENTS then (Inr sentiment, [prompt])
                  else (Inr (fallback_sentiment text), [prompt])))"

definition analyze_sentiment :: "model \<Rightarrow> string \<Rightarrow> (exn + string) \<times> string list" where
  "analyze_sentiment gen text =
     (if text = [] \<or> strip text = [] then (Inr ''neutral'', [])
      else case analyze_sentiment_try gen text of
             (Inl e, calls) \<Rightarrow> (Inr (fallback_sentiment text), calls)
           | (Inr sentiment, calls) \<Rightarrow> (Inr sentiment, calls))"

definition str_digit :: "nat \<Rightarrow> char" where
  "str_digit d = char_of (48 + d)"

function str_nat :: "nat \<Rightarrow> string" where
  \<comment> \<open>\<open>str(n)\<close> for a non-negative integer\<close>
  "str_nat n = (if n < 10 then [str_digit n] else str_nat (n div 10) @ [str_digit (n mod 10)])"
  by pat_completeness auto
termination
  by (relation "measure (\<lambda>n. n)") auto

fun join :: "string \<Rightarrow> string list \<Rightarrow> string" where
  \<comment> \<open>\<open>sep.join(xs)\<close>\<close>
  "join sep [] = []"
| "join sep [x] = x"
| "join sep (x # y # ys) = x @ sep @ join sep (y # ys)"

text \<open>
  A Python \<open>dict\<close> with string keys is an association list with distinct keys, in
  insertion order; \<open>d.get(k)\<close> is \<^const>\<open>map_of\<close> and \<open>d[k] = v\<close> is
  \<^const>\<open>AList.update\<close>. A string, list or dict is truthy when it is not empty, and
  \<open>None\<close> is falsy.
\<close>

type_synonym 'v dict = "(string \<times> 'v) list"

definition feedback_block :: "string list \<Rightarrow> string" where
  "feedback_block texts_to_summarize =
     join (nl @ nl @ ''---'' @ nl @ nl)
       (map (\<lambda>(i, text). ''Feedback '' @ str_nat (i + 1) @ '':'' @ nl @ text)
            (enumerate 0 texts_to_summarize))"

definition context_str :: "string dict option \<Rightarrow> string" where
  "context_str context =
     (case context of
        None \<Rightarrow> []
      | Some c \<Rightarrow>
          if c = [] then []
          else (case map_of c ''date_range'' of
                  None \<Rightarrow> []
                | Some v \<Rightarrow> if v = [] then [] else ''Date range: '' @ v @ nl) @
               (case map_of c ''source'' of
                  None \<Rightarrow> []
                | Some v \<Rightarrow> if v = [] then [] else ''Source filter: '' @ v @ nl))"

definition summary_prompt :: "string \<Rightarrow> string \<Rightarrow> string" where
  "summary_prompt ctx block =
     ''You are analyzing customer feedback for a product team. '' @ nl @
     indent @ ''Summarize the key themes, complaints, and positive feedback from the following customer feedback entries.'' @ nl @
     indent @ ''Be concise but comprehensive. Focus on actionable insights.'' @ nl @
     indent @ ctx @ nl @
     indent @ nl @
     indent @ ''Feedback entries:'' @ nl @
     indent @ block @ nl @
     indent @ nl @
     indent @ ''Summary:''"

definition summarize_feedback ::
  "constants \<Rightarrow> model \<Rightarrow> string list \<Rightarrow> string dict option \<Rightarrow> (exn + string) \<times> string list" where
  "summarize_feedback cs gen feedback_texts context =
     (if feedback_texts = [] then (Inr ''No feedback available to summarize.'', [])
      else
        let texts_to_summarize = take (MAX_FEEDBACK_FOR_SUMMARY cs) feedback_texts;
            prompt = summary_prompt (context_str context) (feedback_block texts_to_summarize)
        in case gen prompt of
             Inl e \<Rightarrow> (Inl (AIServiceError (''Failed to generate summary: '' @ str_exn e) e), [prompt])
           | Inr response_text \<Rightarrow> (Inr (strip response_text), [prompt]))"

section \<open>The feedback store\<close>

text \<open>
  A row of the table \<open>feedback\<close>. Timestamps are integers (seconds); the JSON column
  \<open>extra_data\<close> is opaque. The table is the list of its rows. The store refuses a
  paginated query whose \<open>OFFSET\<close> or \<open>LIMIT\<close> lies beyond its 64-bit integers or whose
  string parameters hold a NUL character, which the list route meets; the commit of
  \<open>create_feedback\<close> may fail; every other statement is taken to succeed.
\<close>

record feedback =
  fb_id :: int
  fb_text :: string
  fb_source :: string
  fb_sentiment :: "string option"
  fb_created_at :: int
  fb_extra_data :: "string option"

type_synonym db = "feedback list"

fun like :: "string \<Rightarrow> string \<Rightarrow> bool" where
  \<comment> \<open>SQL \<open>s LIKE pattern\<close> (PostgreSQL): \<open>%\<close> matches any sequence of characters,
      \<open>_\<close> any one character, a backslash makes the next pattern character literal.\<close>
  "like [] s = (s = [])"
| "like (p # ps) [] = (p = CHR ''%'' \<and> like ps [])"
| "like (p # ps) (c # cs) =
     (if p = CHR ''%'' then like ps (c # cs) \<or> like (p # ps) cs
      else if p = CHR ''_'' then like ps cs
      else if p = CHR 0x5C then (case ps of [] \<Rightarrow> False | q # qs \<Rightarrow> q = c \<and> like qs cs)
      else p = c \<and> like ps cs)"

definition ilike :: "string \<Rightarrow> string \<Rightarrow> bool" where
  \<comment> \<open>\<open>column.ilike(pattern)\<close>: \<open>LIKE\<close> on the lower-cased pattern and value\<close>
  "ilike pattern s = like (lower pattern) (lower s)"

definition order_by_created_at_desc :: "feedback list \<Rightarrow> feedback list" where
  \<comment> \<open>\<open>ORDER BY created_at DESC\<close>; rows with equal timestamps stay in table order\<close>
  "order_by_created_at_desc rows = sort_key (\<lambda>f. - fb_created_at f) rows"

definition group_count :: "('r \<Rightarrow> 'k) \<Rightarrow> 'r list \<Rightarrow> ('k \<times> nat) list" where
  \<comment> \<open>\<open>SELECT key, count(id) ... GROUP BY key\<close>: one row for each distinct key (NULL is one key)\<close>
  "group_count key rows =
     map (\<lambda>k. (k, length (filter (\<lambda>r. key r = k) rows))) (remdups (map key rows))"

definition next_id :: "db \<Rightarrow> int" where
  "next_id db = fold max (map fb_id db) 0 + 1"

section \<open>The feedback service\<close>

definition get_feedback ::
  "db \<Rightarrow> nat \<Rightarrow> nat \<Rightarrow> string option \<Rightarrow> string option \<Rightarrow> string option \<Rightarrow>
   int option \<Rightarrow> int option \<Rightarrow> feedback list \<times> nat" where
  "get_feedback db skip limit search source sentiment start_date end_date =
     (let query = db;
          query = (case search of
                     None \<Rightarrow> query
                   | Some s \<Rightarrow> if s = [] then query
                       else filter (\<lambda>f. ilike (''%'' @ s @ ''%'') (fb_text f)) query);
          query = (case source of
                     None \<Rightarrow> query
                   | Some s \<Rightarrow> if s = [] then query
                       else filter (\<lambda>f. fb_source f = s) query);
          query = (case sentiment of
                     None \<Rightarrow> query
                   | Some s \<Rightarrow> if s = [] then query
                       else filter (\<lambda>f. fb_sentiment f = Some s) query);
          query = (case start_date of
                     None \<Rightarrow> query
                   | Some d \<Rightarrow> filter (\<lambda>f. fb_created_at f \<ge> d) query);
          query = (case end_date of
                     None \<Rightarrow> query
                   | Some d \<Rightarrow> filter (\<lambda>f. fb_created_at f \<le> d) query);
          total = length query;
          feedback = take limit (drop skip (order_by_created_at_desc query))
      in (feedback, total))"

definition get_feedback_by_ids :: "db \<Rightarrow> int list \<Rightarrow> feedback list" where
  "get_feedback_by_ids db feedback_ids =
     (if feedback_ids = [] then []
      else filter (\<lambda>f. fb_id f \<in> set feedback_ids) db)"

definition BIGINT_MAX :: int where
  "BIGINT_MAX = 9223372036854775807"

definition has_nul :: "string option \<Rightarrow> bool" where
  "has_nul v = (case v of None \<Rightarrow> False | Some s \<Rightarrow> CHR 0x00 \<in> set s)"

definition get_feedback_or_raise ::
  "db \<Rightarrow> int \<Rightarrow> int \<Rightarrow> string option \<Rightarrow> string option \<Rightarrow> string option \<Rightarrow>
   int option \<Rightarrow> int option \<Rightarrow> exn + feedback list \<times> nat" where
  \<comment> \<open>\<open>FeedbackService.get_feedback\<close> with the statements the store refuses: the call
      raises when the offset or the limit exceeds \<open>BIGINT_MAX\<close> or a string filter holds a
      NUL character, and otherwise returns what \<open>get_feedback\<close> computes\<close>
  "get_feedback_or_raise db skip limit search source sentiment start_date end_date =
     (if skip > BIGINT_MAX \<or> limit > BIGINT_MAX \<or>
         has_nul search \<or> has_nul source \<or> has_nul sentiment
      then Inl (SQLAlchemyError ''statement refused by the store'')
      else Inr (get_feedback db (nat skip) (nat limit) search source sentiment
                  start_date end_date))"

definition create_feedback ::
  "constants \<Rightarrow> model \<Rightarrow> exn option \<Rightarrow> int \<Rightarrow> db \<Rightarrow> string \<Rightarrow> string \<Rightarrow> string option \<Rightarrow>
   (exn + feedback) \<times> db \<times> string list" where
  \<comment> \<open>\<open>commit_error\<close> is the exception \<open>db.commit()\<close> raises, if any; \<open>now\<close> is the
      server default of \<open>created_at\<close>. The result is the outcome, the store afterwards
      and the prompts sent to the model. The message of the first \<open>ValueError\<close> is
      shortened.\<close>
  "create_feedback cs gen commit_error now db text source metadata =
     (if source \<notin> set (VALID_SOURCES cs) then
        (Inl (ValueError (''Invalid source: '' @ source)), db, [])
      else if text = [] \<or> strip text = [] then
        (Inl (ValueError ''Feedback text cannot be empty''), db, [])
      else
        case analyze_sentiment gen text of
          (Inl e, calls) \<Rightarrow>
            (Inl (DatabaseError (''Failed to create feedback: '' @ str_exn e) e), db, calls)
        | (Inr sentiment0, calls) \<Rightarrow>
            let sentiment = (if sentiment0 \<notin> set VALID_SENTIMENTS then ''neutral'' else sentiment0);
                feedback = \<lparr>fb_id = next_id db, fb_text = strip text, fb_source = source,
                            fb_sentiment = Some sentiment, fb_created_at = now,
                            fb_extra_data = metadata\<rparr>
            in case commit_error of
                 Some e \<Rightarrow>
                   (Inl (DatabaseError (''Failed to create feedback: '' @ str_exn e) e), db, calls)
               | None \<Rightarrow> (Inr feedback, db @ [feedback], calls))"

definition or_unknown :: "string option \<Rightarrow> string" where
  \<comment> \<open>\<open>sent or 'unknown'\<close>\<close>
  "or_unknown sent = (case sent of None \<Rightarrow> ''unknown'' | Some s \<Rightarrow> if s = [] then ''unknown'' else s)"

record stats =
  total_feedback :: nat
  sentiment_counts :: "nat dict"
  source_counts :: "nat dict"
  recent_count :: nat

definition get_stats :: "int \<Rightarrow> db \<Rightarrow> stats" where
  \<comment> \<open>\<open>utcnow\<close> is \<open>datetime.utcnow()\<close>; a dict comprehension stores its pairs in turn\<close>
  "get_stats utcnow db =
     (let total = length db;
          sentiment_dict = fold (\<lambda>(sent, count). AList.update (or_unknown sent) count)
                             (group_count fb_sentiment db) [];
          source_dict = fold (\<lambda>(source, count). AList.update source count)
                          (group_count fb_source db) [];
          week_ago = utcnow - 7 * 86400;
          recent_count = length (filter (\<lambda>f. fb_created_at f \<ge> week_ago) db)
      in \<lparr>total_feedback = total, sentiment_counts = sentiment_dict,
          source_counts = source_dict, recent_count = recent_count\<rparr>)"

section \<open>The routes\<close>

text \<open>
  \<open>datetime.fromisoformat\<close> is a parameter: it yields \<open>None\<close> where Python raises
  \<open>ValueError\<close>. The values of the \<open>filters\<close> object of a summarize request are strings.
\<close>

definition replace_Z :: "string \<Rightarrow> string" where
  \<comment> \<open>\<open>s.replace('Z', '+00:00')\<close>\<close>
  "replace_Z s = concat (map (\<lambda>c. if c = CHR ''Z'' then ''+00:00'' else [c]) s)"

definition parse_date :: "(string \<Rightarrow> int option) \<Rightarrow> string option \<Rightarrow> exn + int option" where
  \<comment> \<open>\<open>None\<close> for a falsy value, else \<open>datetime.fromisoformat(v.replace('Z', '+00:00'))\<close>\<close>
  "parse_date fromisoformat v =
     (case v of
        None \<Rightarrow> Inr None
      | Some s \<Rightarrow>
          if s = [] then Inr None
          else (case fromisoformat (replace_Z s) of
                  None \<Rightarrow> Inl (ValueError ''Invalid isoformat string'')
                | Some d \<Rightarrow> Inr (Some d)))"

record feedback_list_response =
  items :: "feedback list"
  total :: nat
  page :: int
  page_size :: int

definition get_feedback_route ::
  "constants \<Rightarrow> (string \<Rightarrow> int option) \<Rightarrow> db \<Rightarrow> int \<Rightarrow> int \<Rightarrow> string option \<Rightarrow> string option \<Rightarrow>
   string option \<Rightarrow> string option \<Rightarrow> string option \<Rightarrow> exn + feedback_list_response" where
  \<comment> \<open>the bounds \<open>ge=1\<close> and \<open>le=MAX_PAGE_SIZE\<close> of the query parameters are checked first;
      \<open>except Exception\<close> turns whatever the service call raises into a 500\<close>
  "get_feedback_route cs fromisoformat db page_no page_sz search source sentiment start_date end_date =
     (if page_no < 1 \<or> page_sz < 1 \<or> page_sz > int (MAX_PAGE_SIZE cs) then Inl RequestValidationError
      else
        let skip = (page_no - 1) * page_sz
        in case parse_date fromisoformat start_date of
             Inl e \<Rightarrow>
               Inl (HTTPException 400
                      ''Invalid start_date format. Use ISO format (e.g., 2024-01-01T00:00:00Z).'')
           | Inr start_dt \<Rightarrow>
               (case parse_date fromisoformat end_date of
                  Inl e \<Rightarrow>
                    Inl (HTTPException 400
                           ''Invalid end_date format. Use ISO format (e.g., 2024-01-01T00:00:00Z).'')
                | Inr end_dt \<Rightarrow>
                    (case get_feedback_or_raise db skip page_sz search source
                            sentiment start_dt end_dt of
                       Inl e \<Rightarrow> Inl (HTTPException 500 ''Failed to fetch feedback'')
                     | Inr (feedback, n) \<Rightarrow>
                         Inr \<lparr>items = feedback, total = n, page = page_no, page_size = page_sz\<rparr>)))"

record summarize_request =
  feedback_ids :: "int list option"
  filters :: "string dict option"

record summarize_response =
  summary :: string
  feedback_count :: nat
  sentiment_breakdown :: "nat dict"

definition summarize_resolve ::
  "constants \<Rightarrow> (string \<Rightarrow> int option) \<Rightarrow> db \<Rightarrow> summarize_request \<Rightarrow> exn + feedback list" where
  \<comment> \<open>the \<open>if\<close>/\<open>elif\<close>/\<open>else\<close> of \<open>summarize_feedback\<close> that binds \<open>feedback_items\<close>\<close>
  "summarize_resolve cs fromisoformat db request =
     (case feedback_ids request of
        Some (i # ids) \<Rightarrow>
          let feedback_items = get_feedback_by_ids db (i # ids)
          in if feedback_items = [] then
               Inl (HTTPException 404 ''No feedback found with the provided IDs'')
             else Inr feedback_items
      | _ \<Rightarrow>
          (case filters request of
             Some (kv # kvs) \<Rightarrow>
               let fs = kv # kvs
               in (case parse_date fromisoformat (map_of fs ''start_date'') of
                     Inl e \<Rightarrow> Inl (HTTPException 400 ''Invalid start_date format in filters'')
                   | Inr start_dt \<Rightarrow>
                       (case parse_date fromisoformat (map_of fs ''end_date'') of
                          Inl e \<Rightarrow> Inl (HTTPException 400 ''Invalid end_date format in filters'')
                        | Inr end_dt \<Rightarrow>
                            Inr (fst (get_feedback db 0 (MAX_FEEDBACK_FOR_SUMMARY cs)
                                        (map_of fs ''search'') (map_of fs ''source'')
                                        (map_of fs ''sentiment'') start_dt end_dt))))
           | _ \<Rightarrow>
               Inr (fst (get_feedback db 0 (MAX_FEEDBACK_FOR_SUMMARY cs)
                           None None None None None))))"

definition breakdown :: "feedback list \<Rightarrow> nat dict" where
  \<comment> \<open>the loop that fills \<open>sentiment_breakdown\<close>\<close>
  "breakdown feedback_items =
     fold (\<lambda>item d.
             let sentiment = or_unknown (fb_sentiment item)
             in AList.update sentiment
                  ((case map_of d sentiment of None \<Rightarrow> 0 | Some n \<Rightarrow> n) + 1) d)
          feedback_items []"

fun summarize_handler :: "exn \<Rightarrow> exn" where
  \<comment> \<open>the \<open>except\<close> clauses of \<open>summarize_feedback\<close>\<close>
  "summarize_handler (HTTPException code detail) = HTTPException code detail"
| "summarize_handler (AIServiceError m c) = AIServiceError m c"
| "summarize_handler e = HTTPException 500 ''Failed to generate summary''"

definition summarize_feedback_route ::
  "constants \<Rightarrow> model \<Rightarrow> (string \<Rightarrow> int option) \<Rightarrow> db \<Rightarrow> summarize_request \<Rightarrow>
   (exn + summarize_response) \<times> string list" where
  "summarize_feedback_route cs gen fromisoformat db request =
     (case summarize_resolve cs fromisoformat db request of
        Inl e \<Rightarrow> (Inl (summarize_handler e), [])
      | Inr feedback_items \<Rightarrow>
          if feedback_items = [] then
            (Inl (summarize_handler (HTTPException 400 ''No feedback found to summarize'')), [])
          else
            let feedback_texts = map fb_text feedback_items;
                context = (case filters request of None \<Rightarrow> [] | Some fs \<Rightarrow> fs)
            in case summarize_feedback cs gen feedback_texts (Some context) of
                 (Inl e, calls) \<Rightarrow> (Inl (summarize_handler e), calls)
               | (Inr summary_text, calls) \<Rightarrow>
                   (Inr \<lparr>summary = summary_text, feedback_count = length feedback_items,
                         sentiment_breakdown = breakdown feedback_items\<rparr>, calls))"

section \<open>The specification's wording of the keyword vote\<close>

fun occurrences :: "string \<Rightarrow> string \<Rightarrow> nat" where
  \<comment> \<open>the number of positions of the text at which the keyword occurs\<close>
  "occurrences keyword [] = 0"
| "occurrences keyword (c # cs) =
     (if prefix keyword (c # cs) then 1 else 0) + occurrences keyword cs"

definition spec_keyword_vote :: "string \<Rightarrow> string" where
  \<comment> \<open>the fallback as the specification words it: lower-case the text, count the
      occurrences of each string of the two keyword lists, compare the two counts\<close>
  "spec_keyword_vote text =
     (let text_lower = lower text;
          negative_count = sum_list (map (\<lambda>keyword. occurrences keyword text_lower) negative_keywords);
          positive_count = sum_list (map (\<lambda>keyword. occurrences keyword text_lower) positive_keywords)
      in if negative_count > positive_count then ''negative''
         else if positive_count > negative_count then ''positive''
         else ''neutral'')"

section \<open>Texts occurring in order\<close>

fun after_first :: "string \<Rightarrow> string \<Rightarrow> string option" where
  \<comment> \<open>what follows the first occurrence of \<open>x\<close> in the string, if \<open>x\<close> occurs\<close>
  "after_first x [] = (if x = [] then Some [] else None)"
| "after_first x (c # cs) =
     (if prefix x (c # cs) then Some (drop (length x) (c # cs)) else after_first x cs)"

fun in_order :: "string list \<Rightarrow> string \<Rightarrow> bool" where
  \<comment> \<open>the strings occur in the given string one after the other, without overlap\<close>
  "in_order [] s = True"
| "in_order (x # xs) s =
     (case after_first x s of None \<Rightarrow> False | Some rest \<Rightarrow> in_order xs rest)"

section \<open>The specification's wording of the query\<close>

definition spec_matches_filters ::
  "string option \<Rightarrow> string option \<Rightarrow> string option \<Rightarrow> int option \<Rightarrow> int option \<Rightarrow> feedback \<Rightarrow> bool" where
  \<comment> \<open>the filters as the specification words them: a case-insensitive substring match on
      the text, exact matches on source and sentiment, inclusive bounds on \<open>created_at\<close>,
      each applied when supplied\<close>
  "spec_matches_filters search source sentiment start_date end_date f =
     ((case search of None \<Rightarrow> True | Some s \<Rightarrow> sublist (lower s) (lower (fb_text f))) \<and>
      (case source of None \<Rightarrow> True | Some s \<Rightarrow> fb_source f = s) \<and>
      (case sentiment of None \<Rightarrow> True | Some s \<Rightarrow> fb_sentiment f = Some s) \<and>
      (case start_date of None \<Rightarrow> True | Some d \<Rightarrow> d \<le> fb_created_at f) \<and>
      (case end_date of None \<Rightarrow> True | Some d \<Rightarrow> fb_created_at f \<le> d))"

definition non_empty :: "string option \<Rightarrow> string option" where
  \<comment> \<open>a filter given as the empty string counts as not supplied\<close>
  "non_empty v = (case v of None \<Rightarrow> None | Some s \<Rightarrow> if s = [] then None else Some s)"

definition wildcard_free :: "string \<Rightarrow> bool" where
  \<comment> \<open>no \<open>%\<close>, \<open>_\<close> or backslash occurs in the string\<close>
  "wildcard_free s = list_all (\<lambda>c. c \<noteq> CHR ''%'' \<and> c \<noteq> CHR ''_'' \<and> c \<noteq> CHR 0x5C) s"

section \<open>Example inputs\<close>

definition cs0 :: constants where
  "cs0 = \<lparr>VALID_SOURCES = [''support_ticket'', ''survey'', ''app_store''],
          MAX_FEEDBACK_FOR_SUMMARY = 2, MAX_PAGE_SIZE = 100\<rparr>"

definition echo_model :: model where
  \<comment> \<open>a model whose answer depends on the prompt it receives\<close>
  "echo_model prompt =
     (if prompt = sentiment_prompt ''ok'' then Inr ''positive'' else Inr ''negative'')"

definition db3 :: db where
  "db3 = [\<lparr>fb_id = 1, fb_text = ''The App crashes'', fb_source = ''app_store'',
            fb_sentiment = Some ''negative'', fb_created_at = 10, fb_extra_data = None\<rparr>,
          \<lparr>fb_id = 2, fb_text = ''Great survey'', fb_source = ''survey'',
            fb_sentiment = Some ''positive'', fb_created_at = 30, fb_extra_data = None\<rparr>,
          \<lparr>fb_id = 3, fb_text = ''app is slow'', fb_source = ''app_store'',
            fb_sentiment = None, fb_created_at = 20, fb_extra_data = None\<rparr>]"

section \<open>Properties of the sentiment classifier\<close>

lemma fallback_sentiment_label:
  "fallback_sentiment text \<in> {''positive'', ''negative'', ''neutral''}"
  by (simp add: fallback_sentiment_def Let_def)

lemma analyze_sentiment_try_label:
  "fst (analyze_sentiment_try gen text) = Inr s \<Longrightarrow> s \<in> {''positive'', ''negative'', ''neutral''}"
  using fallback_sentiment_label [of "text"]
  by (auto simp: analyze_sentiment_try_def Let_def VALID_SENTIMENTS_def
           split: sum.splits if_splits)

lemma analyze_sentiment_returns:
  "\<exists>label calls. analyze_sentiment gen text = (Inr label, calls) \<and>
     label \<in> {''positive'', ''negative'', ''neutral''}"
proof -
  obtain r calls where t: "analyze_sentiment_try gen text = (r, calls)"
    by (cases "analyze_sentiment_try gen text")
  show ?thesis
  proof (cases r)
    case (Inl e)
    with t fallback_sentiment_label [of "text"] show ?thesis
      by (simp add: analyze_sentiment_def)
  next
    case (Inr s)
    with t analyze_sentiment_try_label [of gen "text" s]
    show ?thesis
      by (simp add: analyze_sentiment_def)
  qed
qed

text \<open>
  C1: for every text and every behaviour of the external model (raising, or returning
  any string), \<open>analyze_sentiment\<close> returns normally with one of the labels positive,
  negative, neutral; when the text is empty or all whitespace the label is neutral and
  no prompt is sent to the model.
\<close>

theorem analyze_sentiment_total:
  "(\<exists>label calls. analyze_sentiment gen text = (Inr label, calls) \<and>
       label \<in> {''positive'', ''negative'', ''neutral''}) \<and>
   (text = [] \<or> strip text = [] \<longrightarrow> analyze_sentiment gen text = (Inr ''neutral'', []))"
  using analyze_sentiment_returns [of gen "text"]
  by (simp add: analyze_sentiment_def)

theorem analyze_sentiment_total_witness:
  "strip ''   '' = [] \<and>
   analyze_sentiment (\<lambda>p. Inl (ExternalError ''quota'')) ''   '' = (Inr ''neutral'', [])"
proof -
  have h: "strip ''   '' = []"
    by code_simp
  with analyze_sentiment_total [of "\<lambda>p. Inl (ExternalError ''quota'')" "''   ''"]
  show ?thesis by simp
qed

lemma keyword_count_card:
  "distinct ks \<Longrightarrow> keyword_count ks t = int (card {k \<in> set ks. sublist k t})"
proof -
  assume d: "distinct ks"
  have "sum_list (map (\<lambda>k. 1::int) xs) = int (length xs)" for xs :: "string list"
    by (induction xs) auto
  moreover have "length (filter (\<lambda>k. sublist k t) ks) = card {k \<in> set ks. sublist k t}"
    using d by (metis distinct_card distinct_filter set_filter)
  ultimately show ?thesis by (simp add: keyword_count_def)
qed

lemma distinct_keywords: "distinct negative_keywords" "distinct positive_keywords"
  by (simp_all add: negative_keywords_def positive_keywords_def)

lemma strip_empty_spaces: "strip s = [] \<Longrightarrow> \<forall>c\<in>set s. is_space c"
proof -
  assume "strip s = []"
  then have "dropWhile is_space (rev (dropWhile is_space s)) = []"
    by (simp add: strip_def)
  then have a: "\<forall>c\<in>set (dropWhile is_space s). is_space c"
    by (simp add: dropWhile_eq_Nil_conv)
  have "dropWhile is_space s = []"
  proof (rule ccontr)
    assume n: "dropWhile is_space s \<noteq> []"
    then have "\<not> is_space (hd (dropWhile is_space s))" by (rule hd_dropWhile)
    moreover have "hd (dropWhile is_space s) \<in> set (dropWhile is_space s)" using n by simp
    ultimately show False using a by blast
  qed
  then show ?thesis by (simp add: dropWhile_eq_Nil_conv)
qed

lemma lower_char_space: "is_space c \<Longrightarrow> lower_char c = c"
  by (auto simp: is_space_def lower_char_def Let_def)

lemma keyword_has_letter:
  "k \<in> set negative_keywords \<union> set positive_keywords \<Longrightarrow> \<exists>c\<in>set k. \<not> is_space c"
  by (auto simp: negative_keywords_def positive_keywords_def is_space_def)

lemma blank_keyword_count:
  assumes "\<forall>c\<in>set s. is_space c" "set ks \<subseteq> set negative_keywords \<union> set positive_keywords"
  shows "keyword_count ks (lower s) = 0"
proof -
  have "\<not> sublist k (lower s)" if "k \<in> set ks" for k
  proof
    assume "sublist k (lower s)"
    then have "set k \<subseteq> set (lower s)" by (rule set_mono_sublist)
    moreover have "\<forall>c\<in>set (lower s). is_space c"
      using assms(1) by (auto simp: lower_def lower_char_space)
    ultimately show False using keyword_has_letter that assms(2) by blast
  qed
  then have "filter (\<lambda>k. sublist k (lower s)) ks = []" by (simp add: filter_empty_conv)
  then show ?thesis by (simp add: keyword_count_def)
qed

lemma fallback_blank: "text = [] \<or> strip text = [] \<Longrightarrow> fallback_sentiment text = ''neutral''"
proof -
  assume "text = [] \<or> strip text = []"
  then have "\<forall>c\<in>set text. is_space c" using strip_empty_spaces by auto
  then show ?thesis by (simp add: fallback_sentiment_def blank_keyword_count)
qed

lemma take_1000: "(if length text > 1000 then take 1000 text else text) = take 1000 text"
  by simp

lemma analyze_sentiment_fails:
  assumes "(\<exists>e. gen (sentiment_prompt (take 1000 text)) = Inl e) \<or>
           (\<exists>r. gen (sentiment_prompt (take 1000 text)) = Inr r \<and>
                (\<forall>w. first_word (lower (strip r)) = Inr w \<longrightarrow> w \<notin> set VALID_SENTIMENTS))"
  shows "fst (analyze_sentiment gen text) = Inr (fallback_sentiment text)"
proof (cases "text = [] \<or> strip text = []")
  case True
  then show ?thesis using fallback_blank [of "text"] by (simp add: analyze_sentiment_def)
next
  case False
  have "fst (analyze_sentiment_try gen text) = Inr (fallback_sentiment text) \<or>
        (\<exists>e. fst (analyze_sentiment_try gen text) = Inl e)"
    using assms unfolding analyze_sentiment_try_def take_1000 Let_def
    by (auto split: sum.splits)
  with False show ?thesis
    by (auto simp: analyze_sentiment_def split: prod.splits sum.splits)
qed

lemma fallback_sentiment_example:
  "fallback_sentiment ''This is terrible, broken, and the worst experience, bad bad bad'' = ''negative''"
  by code_simp


text \<open>
  C2, as stated, fails: the fallback does not count occurrences. On the text
  "bad bad good" with a failing external call the occurrences are two negative against
  one positive, which the wording of the claim labels negative, while the classifier
  returns neutral: each list contributes one keyword found in the text.
\<close>

theorem analyze_sentiment_occurrences_counterexample:
  "fst (analyze_sentiment (\<lambda>prompt. Inl (ExternalError ''unavailable'')) ''bad bad good'') =
     Inr ''neutral'' \<and>
   spec_keyword_vote ''bad bad good'' = ''negative''"
  by code_simp

text \<open>
  C2, amended: whenever the external call raises, or its response has no first word
  among the valid labels, the classifier returns the keyword vote on the lower-cased
  full text: with \<open>n\<close> the number of negative keywords and \<open>p\<close> the number of positive
  keywords that the lower-cased text contains as substrings (a keyword counts once,
  however often it occurs), the label is negative when \<open>n > p\<close>, positive when \<open>p > n\<close>
  and neutral otherwise. With a failing external call the text "This is terrible,
  broken, and the worst experience, bad bad bad" is labelled negative.
\<close>

theorem analyze_sentiment_fallback:
  "((\<exists>e. gen (sentiment_prompt (take 1000 text)) = Inl e) \<or>
    (\<exists>r. gen (sentiment_prompt (take 1000 text)) = Inr r \<and>
         (\<forall>w. first_word (lower (strip r)) = Inr w \<longrightarrow> w \<notin> set VALID_SENTIMENTS)) \<longrightarrow>
    fst (analyze_sentiment gen text) =
      Inr (let n = card {k \<in> set negative_keywords. sublist k (lower text)};
               p = card {k \<in> set positive_keywords. sublist k (lower text)}
           in if n > p then ''negative'' else if p > n then ''positive'' else ''neutral'')) \<and>
   fst (analyze_sentiment (\<lambda>prompt. Inl e')
          ''This is terrible, broken, and the worst experience, bad bad bad'') = Inr ''negative''"
proof (intro conjI impI)
  assume "(\<exists>e. gen (sentiment_prompt (take 1000 text)) = Inl e) \<or>
    (\<exists>r. gen (sentiment_prompt (take 1000 text)) = Inr r \<and>
         (\<forall>w. first_word (lower (strip r)) = Inr w \<longrightarrow> w \<notin> set VALID_SENTIMENTS))"
  then have "fst (analyze_sentiment gen text) = Inr (fallback_sentiment text)"
    by (rule analyze_sentiment_fails)
  then show "fst (analyze_sentiment gen text) =
      Inr (let n = card {k \<in> set negative_keywords. sublist k (lower text)};
               p = card {k \<in> set positive_keywords. sublist k (lower text)}
           in if n > p then ''negative'' else if p > n then ''positive'' else ''neutral'')"
    by (simp add: fallback_sentiment_def keyword_count_card distinct_keywords Let_def)
next
  have "fst (analyze_sentiment (\<lambda>prompt. Inl e')
          ''This is terrible, broken, and the worst experience, bad bad bad'') =
        Inr (fallback_sentiment ''This is terrible, broken, and the worst experience, bad bad bad'')"
    by (rule analyze_sentiment_fails) simp
  then show "fst (analyze_sentiment (\<lambda>prompt. Inl e')
          ''This is terrible, broken, and the worst experience, bad bad bad'') = Inr ''negative''"
    by (simp only: fallback_sentiment_example)
qed

theorem analyze_sentiment_fallback_witness:
  "(\<lambda>prompt. Inr '' Maybe. '') (sentiment_prompt (take 1000 ''bad bad good'')) = (Inr '' Maybe. '' :: exn + string) \<and>
   first_word (lower (strip '' Maybe. '')) = Inr ''maybe.'' \<and>
   ''maybe.'' \<notin> set VALID_SENTIMENTS \<and>
   fst (analyze_sentiment (\<lambda>prompt. Inr '' Maybe. '') ''bad bad good'') = Inr ''neutral''"
proof -
  have fw: "first_word (lower (strip '' Maybe. '')) = Inr ''maybe.''"
    by code_simp
  have v: "''maybe.'' \<notin> set VALID_SENTIMENTS"
    by (simp add: VALID_SENTIMENTS_def)
  have n: "card {k \<in> set negative_keywords. sublist k (lower ''bad bad good'')} = 1"
    by code_simp
  have p: "card {k \<in> set positive_keywords. sublist k (lower ''bad bad good'')} = 1"
    by code_simp
  from analyze_sentiment_fallback [of "\<lambda>prompt. Inr '' Maybe. ''" "''bad bad good''"] fw v
  have "fst (analyze_sentiment (\<lambda>prompt. Inr '' Maybe. '') ''bad bad good'') =
      Inr (let n = card {k \<in> set negative_keywords. sublist k (lower ''bad bad good'')};
               p = card {k \<in> set positive_keywords. sublist k (lower ''bad bad good'')}
           in if n > p then ''negative'' else if p > n then ''positive'' else ''neutral'')"
    by simp
  with fw v n p show ?thesis by simp
qed

section \<open>Properties of feedback creation\<close>

lemma strip_Nil: "strip [] = []"
  by (simp add: strip_def)

text \<open>
  C8: when the source is not a valid source, or the text is empty after trimming,
  \<open>create_feedback\<close> raises \<open>ValueError\<close>; no prompt has been sent to the model and the
  store is the one it was given.
\<close>

theorem create_feedback_invalid:
  "source \<notin> set (VALID_SOURCES cs) \<or> text = [] \<or> strip text = [] \<Longrightarrow>
   \<exists>msg. create_feedback cs gen commit_error now db text source metadata =
     (Inl (ValueError msg), db, [])"
  by (auto simp: create_feedback_def)

theorem create_feedback_invalid_witness:
  "''email'' \<notin> set (VALID_SOURCES cs0) \<and>
   create_feedback cs0 (\<lambda>prompt. Inr ''positive'') None 7 [] ''great'' ''email'' None =
     (Inl (ValueError ''Invalid source: email''), [], [])"
proof -
  have h: "''email'' \<notin> set (VALID_SOURCES cs0)"
    by (simp add: cs0_def)
  from create_feedback_invalid [of "''email''" cs0 "''great''" "\<lambda>prompt. Inr ''positive''" None 7 "[]" None] h
  obtain msg where "create_feedback cs0 (\<lambda>prompt. Inr ''positive'') None 7 [] ''great'' ''email'' None =
     (Inl (ValueError msg), [], [])" by blast
  moreover have "create_feedback cs0 (\<lambda>prompt. Inr ''positive'') None 7 [] ''great'' ''email'' None =
     (Inl (ValueError ''Invalid source: email''), [], [])"
    using h by (simp add: create_feedback_def)
  ultimately show ?thesis using h by simp
qed

text \<open>
  C3, as stated, fails: the classifier receives the text as supplied, not the trimmed
  text. For the text " ok " the prompt sent is built from " ok ", and with a model that
  answers positive only to the prompt built from "ok" the stored sentiment is negative,
  while the classifier on the trimmed text answers positive.
\<close>

theorem create_feedback_trimmed_counterexample:
  "create_feedback cs0 echo_model None 7 [] '' ok '' ''survey'' None =
     (Inr \<lparr>fb_id = 1, fb_text = ''ok'', fb_source = ''survey'', fb_sentiment = Some ''negative'',
           fb_created_at = 7, fb_extra_data = None\<rparr>,
      [\<lparr>fb_id = 1, fb_text = ''ok'', fb_source = ''survey'', fb_sentiment = Some ''negative'',
           fb_created_at = 7, fb_extra_data = None\<rparr>],
      [sentiment_prompt '' ok '']) \<and>
   analyze_sentiment echo_model (strip '' ok '') = (Inr ''positive'', [sentiment_prompt ''ok'']) \<and>
   sentiment_prompt '' ok '' \<noteq> sentiment_prompt ''ok''"
  by code_simp

text \<open>
  C3, amended: for every input that passes validation, the classifier is invoked once,
  on the text as supplied (its prompt is built from the first 1000 characters of the
  untrimmed text), and when the write succeeds the persisted record stores the trimmed
  text together with the label the classifier returned for the untrimmed text.
\<close>

theorem create_feedback_text:
  assumes "source \<in> set (VALID_SOURCES cs)" and "strip text \<noteq> []"
  shows "snd (snd (create_feedback cs gen commit_error now db text source metadata)) =
           snd (analyze_sentiment gen text) \<and>
         snd (analyze_sentiment gen text) = [sentiment_prompt (take 1000 text)] \<and>
         (commit_error = None \<longrightarrow>
           (\<exists>f label. create_feedback cs gen commit_error now db text source metadata =
                  (Inr f, db @ [f], [sentiment_prompt (take 1000 text)]) \<and>
                fb_text f = strip text \<and> fb_sentiment f = Some label \<and>
                fst (analyze_sentiment gen text) = Inr label))"
proof -
  from assms(2) have ne: "text \<noteq> []" using strip_Nil by auto
  obtain label calls where a: "analyze_sentiment gen text = (Inr label, calls)"
    and l: "label \<in> {''positive'', ''negative'', ''neutral''}"
    using analyze_sentiment_returns [of gen "text"] by blast
  have c: "calls = [sentiment_prompt (take 1000 text)]"
    using a ne assms(2)
    by (auto simp: analyze_sentiment_def analyze_sentiment_try_def Let_def
             split: if_splits sum.splits prod.splits)
  have v: "label \<in> set VALID_SENTIMENTS" using l by (auto simp: VALID_SENTIMENTS_def)
  show ?thesis using assms ne a c v
    by (auto simp: create_feedback_def Let_def split: option.splits)
qed

theorem create_feedback_text_witness:
  "''survey'' \<in> set (VALID_SOURCES cs0) \<and> strip '' ok '' \<noteq> [] \<and>
   snd (snd (create_feedback cs0 echo_model None 7 [] '' ok '' ''survey'' None)) =
     [sentiment_prompt (take 1000 '' ok '')]"
proof -
  have h1: "''survey'' \<in> set (VALID_SOURCES cs0)"
    by (simp add: cs0_def)
  have h2: "strip '' ok '' \<noteq> []"
    by code_simp
  from create_feedback_text [OF h1 h2, of echo_model None 7 "[]" None] h1 h2
  show ?thesis by simp
qed

section \<open>Properties of the query layer\<close>

lemma like_percent_Nil: "like [CHR ''%''] t"
  by (induction t) auto

lemma like_percent: "like (CHR ''%'' # p) t \<longleftrightarrow> (\<exists>u. suffix u t \<and> like p u)"
proof (induction t)
  case Nil
  then show ?case by simp
next
  case (Cons c cs)
  have "like (CHR ''%'' # p) (c # cs) \<longleftrightarrow> like p (c # cs) \<or> like (CHR ''%'' # p) cs"
    by simp
  also have "\<dots> \<longleftrightarrow> like p (c # cs) \<or> (\<exists>u. suffix u cs \<and> like p u)"
    using Cons.IH by simp
  also have "\<dots> \<longleftrightarrow> (\<exists>u. suffix u (c # cs) \<and> like p u)"
    by (auto simp: suffix_Cons)
  finally show ?case .
qed

lemma like_literal_prefix:
  "wildcard_free s \<Longrightarrow> like (s @ [CHR ''%'']) t \<longleftrightarrow> prefix s t"
proof (induction s arbitrary: t)
  case Nil
  then show ?case by (simp add: like_percent_Nil)
next
  case (Cons a s)
  then have a: "a \<noteq> CHR ''%''" "a \<noteq> CHR ''_''" "a \<noteq> CHR 0x5C" and w: "wildcard_free s"
    by (simp_all add: wildcard_free_def)
  show ?case
  proof (cases t)
    case Nil
    then show ?thesis using a by simp
  next
    case (Cons c cs)
    then show ?thesis using a Cons.IH [OF w, of cs] by auto
  qed
qed

lemma like_contains:
  "wildcard_free s \<Longrightarrow> like (CHR ''%'' # s @ [CHR ''%'']) t \<longleftrightarrow> sublist s t"
  by (simp add: like_percent like_literal_prefix sublist_altdef')

lemma of_char_lower_char:
  fixes c :: char
  defines "n \<equiv> (of_char c :: nat)"
  shows "(of_char (lower_char c) :: nat) =
     (if (65 \<le> n \<and> n \<le> 90) \<or> (192 \<le> n \<and> n \<le> 214) \<or> (216 \<le> n \<and> n \<le> 222)
      then n + 32 else n)"
proof (cases "(65 \<le> n \<and> n \<le> 90) \<or> (192 \<le> n \<and> n \<le> 214) \<or> (216 \<le> n \<and> n \<le> 222)")
  case True
  then have "lower_char c = char_of (n + 32)"
    unfolding lower_char_def n_def Let_def by (simp only: if_True)
  moreover have "n + 32 < 256" using True by arith
  ultimately have "(of_char (lower_char c) :: nat) = n + 32"
    by (simp only: of_char_of mod_less)
  with True show ?thesis by (simp only: if_True)
next
  case False
  then have "lower_char c = c"
    unfolding lower_char_def n_def Let_def by (simp only: if_False)
  with False show ?thesis by (simp only: if_False n_def)
qed

lemma wildcard_codes:
  "c = CHR ''%'' \<longleftrightarrow> (of_char c :: nat) = 37"
  "c = CHR ''_'' \<longleftrightarrow> (of_char c :: nat) = 95"
  "c = CHR 0x5C \<longleftrightarrow> (of_char c :: nat) = 92"
proof -
  have "(of_char (CHR ''%'') :: nat) = 37" "(of_char (CHR ''_'') :: nat) = 95"
       "(of_char (CHR 0x5C) :: nat) = 92"
    by simp_all
  then show "c = CHR ''%'' \<longleftrightarrow> (of_char c :: nat) = 37"
    "c = CHR ''_'' \<longleftrightarrow> (of_char c :: nat) = 95"
    "c = CHR 0x5C \<longleftrightarrow> (of_char c :: nat) = 92"
    by (metis of_char_eq_iff)+
qed

lemma lower_char_wildcard:
  assumes "c \<noteq> CHR ''%'' \<and> c \<noteq> CHR ''_'' \<and> c \<noteq> CHR 0x5C"
  shows "lower_char c \<noteq> CHR ''%'' \<and> lower_char c \<noteq> CHR ''_'' \<and> lower_char c \<noteq> CHR 0x5C"
  using assms unfolding wildcard_codes of_char_lower_char
  by (simp split: if_splits)

lemma wildcard_free_lower: "wildcard_free s \<Longrightarrow> wildcard_free (lower s)"
  by (auto simp: wildcard_free_def lower_def list_all_iff lower_char_wildcard)

lemma lower_percent: "lower_char (CHR ''%'') = CHR ''%''"
  by (simp add: lower_char_def)

lemma ilike_contains:
  "wildcard_free s \<Longrightarrow> ilike (CHR ''%'' # s @ ''%'') t \<longleftrightarrow> sublist (lower s) (lower t)"
  using like_contains [OF wildcard_free_lower, of s "lower t"]
  by (simp add: ilike_def lower_def lower_percent)


lemma search_stage:
  assumes "\<forall>s. search = Some s \<longrightarrow> wildcard_free s"
  shows "(case search of None \<Rightarrow> q
          | Some s \<Rightarrow> if s = [] then q else filter (\<lambda>f. ilike (''%'' @ s @ ''%'') (fb_text f)) q) =
         filter (\<lambda>f. case non_empty search of None \<Rightarrow> True
                     | Some s \<Rightarrow> sublist (lower s) (lower (fb_text f))) q"
  using assms by (cases search) (simp_all add: non_empty_def ilike_contains)

lemma source_stage:
  "(case source of None \<Rightarrow> q
    | Some s \<Rightarrow> if s = [] then q else filter (\<lambda>f. fb_source f = s) q) =
   filter (\<lambda>f. case non_empty source of None \<Rightarrow> True | Some s \<Rightarrow> fb_source f = s) q"
  by (cases source) (simp_all add: non_empty_def)

lemma sentiment_stage:
  "(case sentiment of None \<Rightarrow> q
    | Some s \<Rightarrow> if s = [] then q else filter (\<lambda>f. fb_sentiment f = Some s) q) =
   filter (\<lambda>f. case non_empty sentiment of None \<Rightarrow> True | Some s \<Rightarrow> fb_sentiment f = Some s) q"
  by (cases sentiment) (simp_all add: non_empty_def)

lemma start_stage:
  "(case start_date of None \<Rightarrow> q | Some d \<Rightarrow> filter (\<lambda>f. fb_created_at f \<ge> d) q) =
   filter (\<lambda>f. case start_date of None \<Rightarrow> True | Some d \<Rightarrow> d \<le> fb_created_at f) q"
  by (cases start_date) simp_all

lemma end_stage:
  "(case end_date of None \<Rightarrow> q | Some d \<Rightarrow> filter (\<lambda>f. fb_created_at f \<le> d) q) =
   filter (\<lambda>f. case end_date of None \<Rightarrow> True | Some d \<Rightarrow> fb_created_at f \<le> d) q"
  by (cases end_date) simp_all

lemma get_feedback_matches:
  assumes "\<forall>s. search = Some s \<longrightarrow> wildcard_free s"
  shows "get_feedback db skip limit search source sentiment start_date end_date =
    (take limit (drop skip (order_by_created_at_desc
       (filter (spec_matches_filters (non_empty search) (non_empty source) (non_empty sentiment)
                  start_date end_date) db))),
     length (filter (spec_matches_filters (non_empty search) (non_empty source) (non_empty sentiment)
                  start_date end_date) db))"
proof -
  have m: "spec_matches_filters (non_empty search) (non_empty source) (non_empty sentiment)
             start_date end_date =
        (\<lambda>f. (case non_empty search of None \<Rightarrow> True
                     | Some s \<Rightarrow> sublist (lower s) (lower (fb_text f))) \<and>
              (case non_empty source of None \<Rightarrow> True | Some s \<Rightarrow> fb_source f = s) \<and>
              (case non_empty sentiment of None \<Rightarrow> True | Some s \<Rightarrow> fb_sentiment f = Some s) \<and>
              (case start_date of None \<Rightarrow> True | Some d \<Rightarrow> d \<le> fb_created_at f) \<and>
              (case end_date of None \<Rightarrow> True | Some d \<Rightarrow> fb_created_at f \<le> d))"
    by (rule ext) (simp only: spec_matches_filters_def)
  show ?thesis
    unfolding get_feedback_def Let_def search_stage [OF assms] source_stage sentiment_stage
      start_stage end_stage m filter_filter
    by (simp only: conj_assoc conj_commute conj_left_commute)
qed

lemma order_desc:
  "mset (order_by_created_at_desc rows) = mset rows"
  "sorted_wrt (\<lambda>a b. fb_created_at b \<le> fb_created_at a) (order_by_created_at_desc rows)"
proof -
  show "mset (order_by_created_at_desc rows) = mset rows"
    by (simp add: order_by_created_at_desc_def)
  have "sorted (map (\<lambda>f. - fb_created_at f) (order_by_created_at_desc rows))"
    unfolding order_by_created_at_desc_def by (rule sorted_sort_key)
  then show "sorted_wrt (\<lambda>a b. fb_created_at b \<le> fb_created_at a) (order_by_created_at_desc rows)"
    by (simp add: sorted_map)
qed

lemma page_length_offset:
  assumes "0 \<le> k" "0 \<le> s"
  shows "int (length (take (nat s) (drop (nat k) xs))) = min s (max 0 (int (length xs) - k))"
proof -
  have "int (length (take (nat s) (drop (nat k) xs))) = min (int (length xs - nat k)) (int (nat s))"
    by (simp only: length_take length_drop min.commute of_nat_min)
  also have "int (length xs - nat k) = max 0 (int (length xs) - k)"
    using assms(1) by linarith
  also have "int (nat s) = s" using assms(2) by simp
  finally show ?thesis by (simp add: min.commute)
qed

lemma page_length:
  assumes "1 \<le> p" "1 \<le> s"
  shows "int (length (take (nat s) (drop (nat ((p - 1) * s)) xs))) =
         min s (max 0 (int (length xs) - (p - 1) * s))"
  using assms by (intro page_length_offset) simp_all


text \<open>
  C4, as stated, fails on four inputs. The search string is spliced into a \<open>LIKE\<close>
  pattern, so the search "_" selects every record with a non-empty text although no
  text contains an underscore. A source (or sentiment) filter given as the empty string
  is skipped, so every record is returned although none has the source "". Page
  \<open>10^19\<close> of size 1 asks the store for an offset beyond its 64-bit integers, and a
  search string holding a NUL character is refused too: the route answers both with a
  500 instead of a page and the total 3.
\<close>

theorem get_feedback_filters_counterexample:
  "get_feedback_route cs0 (\<lambda>s. None) db3 1 10 (Some ''_'') None None None None =
     Inr \<lparr>items = [db3 ! 1, db3 ! 2, db3 ! 0], total = 3, page = 1, page_size = 10\<rparr> \<and>
   filter (spec_matches_filters (Some ''_'') None None None None) db3 = [] \<and>
   get_feedback_route cs0 (\<lambda>s. None) db3 1 10 None (Some '''') None None None =
     Inr \<lparr>items = [db3 ! 1, db3 ! 2, db3 ! 0], total = 3, page = 1, page_size = 10\<rparr> \<and>
   filter (spec_matches_filters None (Some '''') None None None) db3 = [] \<and>
   get_feedback_route cs0 (\<lambda>s. None) db3 10000000000000000000 1 None None None None None =
     Inl (HTTPException 500 ''Failed to fetch feedback'') \<and>
   get_feedback_route cs0 (\<lambda>s. None) db3 1 10 (Some [CHR 0x00]) None None None None =
     Inl (HTTPException 500 ''Failed to fetch feedback'') \<and>
   length (filter (spec_matches_filters None None None None None) db3) = 3"
  by code_simp

text \<open>
  C4, amended: for every store, every page \<open>p \<ge> 1\<close> and page size \<open>s\<close> within bounds
  whose offset \<open>(p-1)*s\<close> does not exceed the store's 64-bit integers, and every
  combination of filters whose strings hold no NUL character and whose search string
  contains no \<open>%\<close>, \<open>_\<close> or backslash, the list route applies conjunctively all filters
  that are supplied and not the empty string (case-insensitive substring match on text,
  exact match on source and on sentiment, inclusive bounds on \<open>created_at\<close>); the
  returned items are page \<open>p\<close> of the matching records ordered by \<open>created_at\<close>
  descending, the returned total is the number \<open>K\<close> of matching records whatever the
  page, and the page holds \<open>min(s, max(0, K - (p-1)*s))\<close> items.
\<close>

theorem get_feedback_route_page:
  assumes "1 \<le> page_no" and "1 \<le> page_sz" and "page_sz \<le> int (MAX_PAGE_SIZE cs)"
    and "(page_no - 1) * page_sz \<le> BIGINT_MAX" and "page_sz \<le> BIGINT_MAX"
    and "\<forall>s. search = Some s \<longrightarrow> wildcard_free s"
    and "\<not> has_nul search" and "\<not> has_nul source" and "\<not> has_nul sentiment"
    and "parse_date fromisoformat start_date = Inr start_dt"
    and "parse_date fromisoformat end_date = Inr end_dt"
  shows "\<exists>r ordered.
      get_feedback_route cs fromisoformat db page_no page_sz search source sentiment
        start_date end_date = Inr r \<and>
      mset ordered = mset (filter (spec_matches_filters (non_empty search) (non_empty source)
                                     (non_empty sentiment) start_dt end_dt) db) \<and>
      sorted_wrt (\<lambda>a b. fb_created_at b \<le> fb_created_at a) ordered \<and>
      items r = take (nat page_sz) (drop (nat ((page_no - 1) * page_sz)) ordered) \<and>
      total r = length (filter (spec_matches_filters (non_empty search) (non_empty source)
                                  (non_empty sentiment) start_dt end_dt) db) \<and>
      int (length (items r)) = min page_sz (max 0 (int (total r) - (page_no - 1) * page_sz))"
proof -
  let ?M = "filter (spec_matches_filters (non_empty search) (non_empty source)
                      (non_empty sentiment) start_dt end_dt) db"
  let ?ordered = "order_by_created_at_desc ?M"
  let ?r = "\<lparr>items = take (nat page_sz) (drop (nat ((page_no - 1) * page_sz)) ?ordered),
             total = length ?M, page = page_no, page_size = page_sz\<rparr>"
  have q: "get_feedback_or_raise db ((page_no - 1) * page_sz) page_sz search source sentiment
             start_dt end_dt =
           Inr (take (nat page_sz) (drop (nat ((page_no - 1) * page_sz)) ?ordered), length ?M)"
    using assms(4,5,7,8,9)
    by (simp add: get_feedback_or_raise_def get_feedback_matches [OF assms(6)])
  have r: "get_feedback_route cs fromisoformat db page_no page_sz search source sentiment
        start_date end_date = Inr ?r"
    using assms(1,2,3,10,11)
    by (simp add: get_feedback_route_def Let_def q)
  have len: "length ?ordered = length ?M"
    by (simp add: order_by_created_at_desc_def)
  have "int (length (items ?r)) = min page_sz (max 0 (int (total ?r) - (page_no - 1) * page_sz))"
    using page_length [OF assms(1,2), of ?ordered] len by simp
  with r order_desc [of ?M] show ?thesis
    by (intro exI [of _ ?r] exI [of _ ?ordered]) simp
qed

theorem get_feedback_route_page_witness:
  "(1::int) \<le> 2 \<and> (1::int) \<le> 1 \<and> (1::int) \<le> int (MAX_PAGE_SIZE cs0) \<and>
   (2 - 1) * (1::int) \<le> BIGINT_MAX \<and> (1::int) \<le> BIGINT_MAX \<and>
   wildcard_free ''APP'' \<and>
   \<not> has_nul (Some ''APP'') \<and> \<not> has_nul (Some ''app_store'') \<and> \<not> has_nul (Some '''') \<and>
   parse_date (\<lambda>s. if s = ''15'' then Some 15 else None) (Some ''15'') = Inr (Some 15) \<and>
   parse_date (\<lambda>s. if s = ''15'' then Some 15 else None) None = Inr None \<and>
   (\<exists>r. get_feedback_route cs0 (\<lambda>s. if s = ''15'' then Some 15 else None) db3 2 1
           (Some ''APP'') (Some ''app_store'') (Some '''') (Some ''15'') None = Inr r \<and>
        total r = 1 \<and> length (items r) = 0)"
proof -
  let ?iso = "\<lambda>s. if s = ''15'' then Some (15::int) else None"
  have h3: "(1::int) \<le> int (MAX_PAGE_SIZE cs0)" by (simp add: cs0_def)
  have h4: "(2 - 1) * (1::int) \<le> BIGINT_MAX" "(1::int) \<le> BIGINT_MAX"
    by (simp_all add: BIGINT_MAX_def)
  have h6: "\<forall>s. Some ''APP'' = Some s \<longrightarrow> wildcard_free s" by (simp add: wildcard_free_def)
  have h7: "\<not> has_nul (Some ''APP'')" "\<not> has_nul (Some ''app_store'')" "\<not> has_nul (Some '''')"
    by (simp_all add: has_nul_def)
  have h10: "parse_date ?iso (Some ''15'') = Inr (Some 15)" by (simp add: parse_date_def replace_Z_def)
  have h11: "parse_date ?iso None = Inr None" by (simp add: parse_date_def)
  have m: "length (filter (spec_matches_filters (non_empty (Some ''APP'')) (non_empty (Some ''app_store''))
                      (non_empty (Some '''')) (Some 15) None) db3) = 1"
    by code_simp
  from get_feedback_route_page [of 2 1 cs0 "Some ''APP''" "Some ''app_store''" "Some ''''"
         ?iso "Some ''15''" "Some 15" None None db3, OF _ _ h3 h4 h6 h7 h10 h11] m
  obtain r where "get_feedback_route cs0 ?iso db3 2 1
           (Some ''APP'') (Some ''app_store'') (Some '''') (Some ''15'') None = Inr r"
    "total r = 1" "int (length (items r)) = min 1 (max 0 (int (total r) - (2 - 1) * 1))"
    by auto
  then show ?thesis using h3 h4 h7 h10 h11 by (auto simp: wildcard_free_def)
qed

section \<open>Properties of the summarizer\<close>

text \<open>
  C6: for the empty list of texts \<open>summarize_feedback\<close> returns the fixed sentinel and
  sends no prompt; it raises exactly when the list is not empty and the external call
  on its prompt raises, and the exception is then \<open>AIServiceError\<close> carrying the
  message and the underlying exception as its cause.
\<close>

theorem summarize_feedback_raises:
  "summarize_feedback cs gen [] context = (Inr ''No feedback available to summarize.'', []) \<and>
   ((\<exists>err. fst (summarize_feedback cs gen texts context) = Inl err) \<longleftrightarrow>
      texts \<noteq> [] \<and>
      (\<exists>e. gen (summary_prompt (context_str context)
                   (feedback_block (take (MAX_FEEDBACK_FOR_SUMMARY cs) texts))) = Inl e)) \<and>
   (\<forall>e. texts \<noteq> [] \<and>
        gen (summary_prompt (context_str context)
               (feedback_block (take (MAX_FEEDBACK_FOR_SUMMARY cs) texts))) = Inl e \<longrightarrow>
        fst (summarize_feedback cs gen texts context) =
          Inl (AIServiceError (''Failed to generate summary: '' @ str_exn e) e))"
  by (auto simp: summarize_feedback_def Let_def split: sum.splits)

theorem summarize_feedback_raises_witness:
  "[''slow app''] \<noteq> [] \<and>
   (\<lambda>prompt. Inl (ExternalError ''quota exceeded'') :: exn + string)
     (summary_prompt (context_str None) (feedback_block (take (MAX_FEEDBACK_FOR_SUMMARY cs0) [''slow app''])))
     = Inl (ExternalError ''quota exceeded'') \<and>
   fst (summarize_feedback cs0 (\<lambda>prompt. Inl (ExternalError ''quota exceeded'')) [''slow app''] None) =
     Inl (AIServiceError ''Failed to generate summary: quota exceeded'' (ExternalError ''quota exceeded''))"
  using summarize_feedback_raises [of cs0 "\<lambda>prompt. Inl (ExternalError ''quota exceeded'')" None "[''slow app'']"]
  by simp


lemma sum_update:
  "distinct (map fst d) \<Longrightarrow>
   sum_list (map snd (AList.update k v d)) + (case map_of d k of None \<Rightarrow> 0 | Some n \<Rightarrow> n) =
   sum_list (map snd d) + (v :: nat)"
  by (induction d) (auto simp: rev_image_eqI split: option.splits)

lemma fold_count_sum:
  "distinct (map fst d) \<Longrightarrow>
   distinct (map fst (fold (\<lambda>item d. let sentiment = or_unknown (fb_sentiment item)
             in AList.update sentiment
                  ((case map_of d sentiment of None \<Rightarrow> 0 | Some n \<Rightarrow> n) + 1) d) xs d)) \<and>
   sum_list (map snd (fold (\<lambda>item d. let sentiment = or_unknown (fb_sentiment item)
             in AList.update sentiment
                  ((case map_of d sentiment of None \<Rightarrow> 0 | Some n \<Rightarrow> n) + 1) d) xs d)) =
   sum_list (map snd d) + length xs"
proof (induction xs arbitrary: d)
  case Nil
  then show ?case by simp
next
  case (Cons x xs)
  let ?k = "or_unknown (fb_sentiment x)"
  let ?d = "AList.update ?k ((case map_of d ?k of None \<Rightarrow> 0 | Some n \<Rightarrow> n) + 1) d"
  have d: "distinct (map fst ?d)" using Cons.prems by (rule distinct_update)
  have "sum_list (map snd ?d) = sum_list (map snd d) + 1"
    using sum_update [OF Cons.prems, of ?k "(case map_of d ?k of None \<Rightarrow> 0 | Some n \<Rightarrow> n) + 1"]
    by simp
  with Cons.IH [OF d] show ?case by (simp add: Let_def)
qed

lemma breakdown_sum: "sum_list (map snd (breakdown xs)) = length xs"
  using fold_count_sum [of "[]" xs] by (simp add: breakdown_def)

lemma fold_count_lookup:
  "map_of (fold (\<lambda>item d. let sentiment = or_unknown (fb_sentiment item)
             in AList.update sentiment
                  ((case map_of d sentiment of None \<Rightarrow> 0 | Some n \<Rightarrow> n) + 1) d) xs d) l =
   (if filter (\<lambda>f. or_unknown (fb_sentiment f) = l) xs = [] then map_of d l
    else Some ((case map_of d l of None \<Rightarrow> 0 | Some n \<Rightarrow> n) +
               length (filter (\<lambda>f. or_unknown (fb_sentiment f) = l) xs)))"
  by (induction xs arbitrary: d) (auto simp: Let_def update_conv')

lemma breakdown_lookup:
  "map_of (breakdown xs) l =
   (if filter (\<lambda>f. or_unknown (fb_sentiment f) = l) xs = [] then None
    else Some (length (filter (\<lambda>f. or_unknown (fb_sentiment f) = l) xs)))"
  using fold_count_lookup [of xs "[]" l] by (simp add: breakdown_def)


lemma after_first_sound:
  "after_first x s = Some rest \<Longrightarrow> \<exists>pre. s = pre @ x @ rest"
proof (induction s)
  case Nil
  then show ?case by (simp split: if_splits)
next
  case (Cons c cs)
  show ?case
  proof (cases "prefix x (c # cs)")
    case True
    with Cons.prems have "rest = drop (length x) (c # cs)" by simp
    moreover from True have "c # cs = x @ drop (length x) (c # cs)"
      by (metis append_eq_conv_conj prefixE)
    ultimately have "c # cs = [] @ x @ rest" by simp
    then show ?thesis by blast
  next
    case False
    with Cons.prems have "after_first x cs = Some rest" by simp
    from Cons.IH [OF this] obtain pre where "cs = pre @ x @ rest" by blast
    then have "c # cs = (c # pre) @ x @ rest" by simp
    then show ?thesis by blast
  qed
qed

lemma suffix_drop_length:
  "s = pre @ x @ post \<Longrightarrow> suffix post (drop (length x) s)"
proof -
  assume s: "s = pre @ x @ post"
  have "suffix post s" using s by (simp add: suffix_def)
  moreover have "suffix (drop (length x) s) s" by (rule suffix_drop)
  moreover have "length post \<le> length (drop (length x) s)" using s by simp
  ultimately show ?thesis
    by (metis suffix_length_suffix)
qed

lemma after_first_complete:
  "\<exists>rest. after_first x (pre @ x @ post) = Some rest \<and> suffix post rest"
proof (induction pre)
  case Nil
  show ?case
  proof (cases "x @ post")
    case Nil
    then show ?thesis by simp
  next
    case (Cons c cs)
    then have "prefix x (c # cs)" by (metis prefixI)
    with Cons show ?thesis by (metis after_first.simps(2) append_Nil suffix_drop_length)
  qed
next
  case (Cons a pre)
  show ?case
  proof (cases "prefix x (a # pre @ x @ post)")
    case True
    then have "after_first x ((a # pre) @ x @ post) = Some (drop (length x) ((a # pre) @ x @ post))"
      by simp
    moreover have "suffix post (drop (length x) ((a # pre) @ x @ post))"
      by (rule suffix_drop_length) simp
    ultimately show ?thesis by blast
  next
    case False
    then have "after_first x ((a # pre) @ x @ post) = after_first x (pre @ x @ post)" by simp
    with Cons.IH show ?thesis by simp
  qed
qed

lemma in_order_suffix:
  "in_order xs post \<Longrightarrow> suffix post rest \<Longrightarrow> in_order xs rest"
proof (induction xs arbitrary: post rest)
  case Nil
  then show ?case by simp
next
  case (Cons x xs)
  from Cons.prems(1) obtain p where p: "after_first x post = Some p" "in_order xs p"
    by (auto split: option.splits)
  from after_first_sound [OF p(1)] obtain pre where "post = pre @ x @ p" by blast
  moreover from Cons.prems(2) obtain u where "rest = u @ post" by (auto simp: suffix_def)
  ultimately have "rest = (u @ pre) @ x @ p" by simp
  with after_first_complete [of x "u @ pre" p]
  obtain r where r: "after_first x rest = Some r" "suffix p r" by auto
  from Cons.IH [OF p(2) r(2)] r(1) show ?case by simp
qed

lemma in_order_intro:
  "in_order xs post \<Longrightarrow> in_order (x # xs) (pre @ x @ post)"
proof -
  assume a: "in_order xs post"
  from after_first_complete [of x pre post]
  obtain r where r: "after_first x (pre @ x @ post) = Some r" "suffix post r" by blast
  from in_order_suffix [OF a r(2)] r(1) show ?thesis by simp
qed

lemma in_order_append:
  "in_order xs s \<Longrightarrow> in_order xs (s @ b)"
proof (induction xs arbitrary: s)
  case Nil
  then show ?case by simp
next
  case (Cons x xs)
  from Cons.prems obtain p where p: "after_first x s = Some p" "in_order xs p"
    by (auto split: option.splits)
  from after_first_sound [OF p(1)] obtain pre where "s = pre @ x @ p" by blast
  then have "s @ b = pre @ x @ (p @ b)" by simp
  with in_order_intro [OF Cons.IH [OF p(2)], of x pre] show ?case by simp
qed

lemma in_order_between:
  "in_order xs s \<Longrightarrow> in_order xs (a @ s @ b)"
  using in_order_append [of xs s b] in_order_suffix [of xs "s @ b" "a @ s @ b"]
  by (simp add: suffix_def)

lemma in_order_join:
  "list_all2 (\<lambda>x y. \<exists>l. y = l @ x) xs ys \<Longrightarrow> in_order xs (join sep ys)"
proof (induction xs ys rule: list_all2_induct)
  case Nil
  then show ?case by simp
next
  case (Cons x xs y ys)
  then obtain l where y: "y = l @ x" by blast
  show ?case
  proof (cases ys)
    case Nil
    with Cons.hyps(2) have "xs = []" by simp
    with Nil y in_order_intro [of "[]" "[]" x l] show ?thesis by simp
  next
    case (Cons z zs)
    have "in_order xs (sep @ join sep ys)"
      using in_order_suffix [OF Cons.IH, of "sep @ join sep ys"] by (simp add: suffix_def)
    from in_order_intro [OF this, of x l] y Cons show ?thesis by simp
  qed
qed

lemma entries_end_with_texts:
  "list_all2 (\<lambda>x y. \<exists>l. y = l @ x) ts
     (map (\<lambda>(i, text). ''Feedback '' @ str_nat (i + 1) @ '':'' @ nl @ text) (enumerate n ts))"
proof (induction ts arbitrary: n)
  case Nil
  then show ?case by simp
next
  case (Cons t ts)
  have "\<exists>l. ''Feedback '' @ str_nat (n + 1) @ '':'' @ nl @ t = l @ t"
    by (metis append.assoc)
  with Cons [of "Suc n"] show ?case by simp
qed

lemma in_order_feedback_block: "in_order ts (feedback_block ts)"
  unfolding feedback_block_def by (rule in_order_join) (rule entries_end_with_texts)

lemma in_order_summary_prompt: "in_order ts (summary_prompt ctx (feedback_block ts))"
proof -
  let ?a = "''You are analyzing customer feedback for a product team. '' @ nl @
     indent @ ''Summarize the key themes, complaints, and positive feedback from the following customer feedback entries.'' @ nl @
     indent @ ''Be concise but comprehensive. Focus on actionable insights.'' @ nl @
     indent @ ctx @ nl @
     indent @ nl @
     indent @ ''Feedback entries:'' @ nl @
     indent"
  let ?b = "nl @ indent @ nl @ indent @ ''Summary:''"
  have "summary_prompt ctx (feedback_block ts) = ?a @ feedback_block ts @ ?b"
    by (simp add: summary_prompt_def)
  with in_order_between [OF in_order_feedback_block, where a = ?a and b = ?b] show ?thesis
    by (simp only:)
qed

text \<open>
  C7: for a non-empty list of texts one prompt is sent to the model; the first
  \<open>MAX_FEEDBACK_FOR_SUMMARY\<close> texts occur in it one after the other in input order, and
  the texts beyond the cap do not influence the outcome. In the summarize route the
  reported count and the sentiment breakdown cover every resolved item: the counts sum
  to the number of resolved items and each label maps to the number of resolved items
  carrying it, a null sentiment counting as "unknown".
\<close>

theorem summarize_cap_and_breakdown:
  "(texts \<noteq> [] \<longrightarrow>
      snd (summarize_feedback cs gen texts context) =
        [summary_prompt (context_str context)
           (feedback_block (take (MAX_FEEDBACK_FOR_SUMMARY cs) texts))]) \<and>
   (texts \<noteq> [] \<longrightarrow>
      (\<exists>prompt. snd (summarize_feedback cs gen texts context) = [prompt] \<and>
                in_order (take (MAX_FEEDBACK_FOR_SUMMARY cs) texts) prompt)) \<and>
   (0 < MAX_FEEDBACK_FOR_SUMMARY cs \<longrightarrow>
      summarize_feedback cs gen texts context =
        summarize_feedback cs gen (take (MAX_FEEDBACK_FOR_SUMMARY cs) texts) context) \<and>
   (\<forall>resolved response.
      summarize_resolve cs fromisoformat db request = Inr resolved \<and> resolved \<noteq> [] \<and>
      gen (summary_prompt
             (context_str (Some (case filters request of None \<Rightarrow> [] | Some fs \<Rightarrow> fs)))
             (feedback_block (take (MAX_FEEDBACK_FOR_SUMMARY cs) (map fb_text resolved)))) =
        Inr response \<longrightarrow>
      (\<exists>r. fst (summarize_feedback_route cs gen fromisoformat db request) = Inr r \<and>
           feedback_count r = length resolved \<and>
           sum_list (map snd (sentiment_breakdown r)) = length resolved \<and>
           (\<forall>l. map_of (sentiment_breakdown r) l =
                  (if filter (\<lambda>f. or_unknown (fb_sentiment f) = l) resolved = [] then None
                   else Some (length (filter (\<lambda>f. or_unknown (fb_sentiment f) = l) resolved))))))"
proof (intro conjI impI allI)
  assume "texts \<noteq> []"
  then show "snd (summarize_feedback cs gen texts context) =
        [summary_prompt (context_str context)
           (feedback_block (take (MAX_FEEDBACK_FOR_SUMMARY cs) texts))]"
    by (simp add: summarize_feedback_def Let_def split: sum.splits)
next
  assume "texts \<noteq> []"
  then have "snd (summarize_feedback cs gen texts context) =
        [summary_prompt (context_str context)
           (feedback_block (take (MAX_FEEDBACK_FOR_SUMMARY cs) texts))]"
    by (simp add: summarize_feedback_def Let_def split: sum.splits)
  with in_order_summary_prompt [of "take (MAX_FEEDBACK_FOR_SUMMARY cs) texts" "context_str context"]
  show "\<exists>prompt. snd (summarize_feedback cs gen texts context) = [prompt] \<and>
                in_order (take (MAX_FEEDBACK_FOR_SUMMARY cs) texts) prompt"
    by blast
next
  assume "0 < MAX_FEEDBACK_FOR_SUMMARY cs"
  then have "texts \<noteq> [] \<Longrightarrow> take (MAX_FEEDBACK_FOR_SUMMARY cs) texts \<noteq> []"
    by (cases texts) auto
  then show "summarize_feedback cs gen texts context =
        summarize_feedback cs gen (take (MAX_FEEDBACK_FOR_SUMMARY cs) texts) context"
    by (cases "texts = []") (simp_all add: summarize_feedback_def Let_def)
next
  fix resolved response
  assume a: "summarize_resolve cs fromisoformat db request = Inr resolved \<and> resolved \<noteq> [] \<and>
      gen (summary_prompt
             (context_str (Some (case filters request of None \<Rightarrow> [] | Some fs \<Rightarrow> fs)))
             (feedback_block (take (MAX_FEEDBACK_FOR_SUMMARY cs) (map fb_text resolved)))) =
        Inr response"
  let ?r = "\<lparr>summary = strip response, feedback_count = length resolved,
             sentiment_breakdown = breakdown resolved\<rparr>"
  from a have "fst (summarize_feedback_route cs gen fromisoformat db request) = Inr ?r"
    by (simp add: summarize_feedback_route_def summarize_feedback_def Let_def)
  then show "\<exists>r. fst (summarize_feedback_route cs gen fromisoformat db request) = Inr r \<and>
           feedback_count r = length resolved \<and>
           sum_list (map snd (sentiment_breakdown r)) = length resolved \<and>
           (\<forall>l. map_of (sentiment_breakdown r) l =
                  (if filter (\<lambda>f. or_unknown (fb_sentiment f) = l) resolved = [] then None
                   else Some (length (filter (\<lambda>f. or_unknown (fb_sentiment f) = l) resolved))))"
    by (intro exI [of _ ?r]) (simp add: breakdown_sum breakdown_lookup)
qed


theorem summarize_cap_and_breakdown_witness:
  "map fb_text db3 \<noteq> [] \<and> 0 < MAX_FEEDBACK_FOR_SUMMARY cs0 \<and>
   summarize_resolve cs0 (\<lambda>s. None) db3 \<lparr>feedback_ids = Some [1, 2, 3], filters = None\<rparr> = Inr db3 \<and>
   snd (summarize_feedback cs0 (\<lambda>prompt. Inr ''Crashes.'') (map fb_text db3) (Some [])) =
     [summary_prompt []
        (''Feedback 1:'' @ nl @ ''The App crashes'' @ nl @ nl @ ''---'' @ nl @ nl @
         ''Feedback 2:'' @ nl @ ''Great survey'')] \<and>
   in_order [''The App crashes'', ''Great survey'']
     (summary_prompt []
        (''Feedback 1:'' @ nl @ ''The App crashes'' @ nl @ nl @ ''---'' @ nl @ nl @
         ''Feedback 2:'' @ nl @ ''Great survey'')) \<and>
   \<not> sublist ''app is slow''
     (summary_prompt []
        (''Feedback 1:'' @ nl @ ''The App crashes'' @ nl @ nl @ ''---'' @ nl @ nl @
         ''Feedback 2:'' @ nl @ ''Great survey'')) \<and>
   (\<exists>r. fst (summarize_feedback_route cs0 (\<lambda>prompt. Inr ''Crashes.'') (\<lambda>s. None) db3
              \<lparr>feedback_ids = Some [1, 2, 3], filters = None\<rparr>) = Inr r \<and>
        feedback_count r = 3 \<and> sum_list (map snd (sentiment_breakdown r)) = 3 \<and>
        map_of (sentiment_breakdown r) ''unknown'' = Some 1)"
proof -
  let ?req = "\<lparr>feedback_ids = Some [1, 2, 3], filters = None\<rparr>"
  let ?gen = "\<lambda>prompt :: string. Inr ''Crashes.'' :: exn + string"
  have h1: "map fb_text db3 \<noteq> []" by (simp add: db3_def)
  have h2: "0 < MAX_FEEDBACK_FOR_SUMMARY cs0" by (simp add: cs0_def)
  have h3: "summarize_resolve cs0 (\<lambda>s. None) db3 ?req = Inr db3" by code_simp
  have h4: "db3 \<noteq> []" by (simp add: db3_def)
  have l: "length db3 = 3" by (simp add: db3_def)
  have u: "filter (\<lambda>f. or_unknown (fb_sentiment f) = ''unknown'') db3 = [db3 ! 2]" by code_simp
  have b: "context_str (Some []) = [] \<and>
        feedback_block (take (MAX_FEEDBACK_FOR_SUMMARY cs0) (map fb_text db3)) =
        ''Feedback 1:'' @ nl @ ''The App crashes'' @ nl @ nl @ ''---'' @ nl @ nl @
         ''Feedback 2:'' @ nl @ ''Great survey''" by code_simp
  note t = summarize_cap_and_breakdown [of "map fb_text db3" cs0 ?gen "Some []" "\<lambda>s. None" db3 ?req]
  from t h1 b have p: "snd (summarize_feedback cs0 ?gen (map fb_text db3) (Some [])) =
     [summary_prompt []
        (''Feedback 1:'' @ nl @ ''The App crashes'' @ nl @ nl @ ''---'' @ nl @ nl @
         ''Feedback 2:'' @ nl @ ''Great survey'')]"
    by simp
  have tk: "take (MAX_FEEDBACK_FOR_SUMMARY cs0) (map fb_text db3) =
            [''The App crashes'', ''Great survey'']"
    by code_simp
  from t h1 obtain q where "snd (summarize_feedback cs0 ?gen (map fb_text db3) (Some [])) = [q]"
    "in_order (take (MAX_FEEDBACK_FOR_SUMMARY cs0) (map fb_text db3)) q"
    by blast
  with p tk have o: "in_order [''The App crashes'', ''Great survey'']
     (summary_prompt []
        (''Feedback 1:'' @ nl @ ''The App crashes'' @ nl @ nl @ ''---'' @ nl @ nl @
         ''Feedback 2:'' @ nl @ ''Great survey''))"
    by simp
  have n: "\<not> sublist ''app is slow''
     (summary_prompt []
        (''Feedback 1:'' @ nl @ ''The App crashes'' @ nl @ nl @ ''---'' @ nl @ nl @
         ''Feedback 2:'' @ nl @ ''Great survey''))"
    by code_simp
  from t h3 h4 obtain r where
    "fst (summarize_feedback_route cs0 ?gen (\<lambda>s. None) db3 ?req) = Inr r"
    "feedback_count r = length db3" "sum_list (map snd (sentiment_breakdown r)) = length db3"
    "map_of (sentiment_breakdown r) ''unknown'' =
       (if filter (\<lambda>f. or_unknown (fb_sentiment f) = ''unknown'') db3 = [] then None
        else Some (length (filter (\<lambda>f. or_unknown (fb_sentiment f) = ''unknown'') db3)))"
    by blast
  with l u have "\<exists>r. fst (summarize_feedback_route cs0 ?gen (\<lambda>s. None) db3 ?req) = Inr r \<and>
        feedback_count r = 3 \<and> sum_list (map snd (sentiment_breakdown r)) = 3 \<and>
        map_of (sentiment_breakdown r) ''unknown'' = Some 1"
    by auto
  with h1 h2 h3 p o n show ?thesis by blast
qed


section \<open>Properties of summarization requests\<close>

















section \<open>Properties of the statistics\<close>

lemma update_fresh:
  "k \<notin> fst ` set d \<Longrightarrow> AList.update k v d = d @ [(k, v)]"
  by (induction d) auto

lemma fold_comprehension:
  "distinct (map fst d @ map (\<lambda>(k, v). g k) kvs) \<Longrightarrow>
   fold (\<lambda>(k, v). AList.update (g k) v) kvs d = d @ map (\<lambda>(k, v). (g k, v)) kvs"
proof (induction kvs arbitrary: d)
  case Nil
  then show ?case by simp
next
  case (Cons kv kvs)
  obtain k v where kv: "kv = (k, v)" by (cases kv)
  from Cons.prems kv have f: "g k \<notin> fst ` set d" by auto
  from Cons.prems kv have "distinct (map fst (d @ [(g k, v)]) @ map (\<lambda>(k, v). g k) kvs)"
    by auto
  from Cons.IH [OF this] show ?case
    by (simp add: kv update_fresh [OF f])
qed

lemma length_filter_disjoint:
  "(\<And>x. \<not> (P x \<and> Q x)) \<Longrightarrow>
   length (filter P xs) + length (filter Q xs) = length (filter (\<lambda>x. P x \<or> Q x) xs)"
  by (induction xs) auto

lemma group_sum:
  "distinct ks \<Longrightarrow>
   sum_list (map (\<lambda>k. length (filter (\<lambda>r. key r = k) rows)) ks) =
   length (filter (\<lambda>r. key r \<in> set ks) rows)"
proof (induction ks)
  case Nil
  then show ?case by simp
next
  case (Cons k ks)
  then have d: "distinct ks" and n: "k \<notin> set ks" by simp_all
  from n have "length (filter (\<lambda>r. key r = k) rows) + length (filter (\<lambda>r. key r \<in> set ks) rows) =
        length (filter (\<lambda>r. key r = k \<or> key r \<in> set ks) rows)"
    by (intro length_filter_disjoint) auto
  with Cons.IH [OF d] show ?case by simp
qed

lemma group_count_total:
  "sum_list (map snd (group_count key rows)) = length rows"
proof -
  have "sum_list (map snd (group_count key rows)) =
        sum_list (map (\<lambda>k. length (filter (\<lambda>r. key r = k) rows)) (remdups (map key rows)))"
    by (simp add: group_count_def comp_def)
  also have "\<dots> = length (filter (\<lambda>r. key r \<in> set (remdups (map key rows))) rows)"
    by (rule group_sum) simp
  also have "\<dots> = length rows" by simp
  finally show ?thesis .
qed

lemma sentiment_dict:
  assumes "inj_on or_unknown (set (map fb_sentiment db))"
  shows "sentiment_counts (get_stats utcnow db) =
         map (\<lambda>(k, v). (or_unknown k, v)) (group_count fb_sentiment db)"
proof -
  have "distinct (map or_unknown (remdups (map fb_sentiment db)))"
    using assms by (simp add: distinct_map)
  then have "distinct (map fst [] @ map (\<lambda>(k, v). or_unknown k) (group_count fb_sentiment db))"
    by (simp add: group_count_def comp_def)
  from fold_comprehension [OF this] show ?thesis
    by (simp add: get_stats_def Let_def)
qed

lemma map_of_inj_keys:
  "inj_on g (set ks) \<Longrightarrow> k \<in> set ks \<Longrightarrow> map_of (map (\<lambda>k. (g k, c k)) ks) (g k) = Some (c k)"
  by (induction ks) (auto simp: inj_on_def)

lemma sentiment_lookup:
  assumes "inj_on or_unknown (set (map fb_sentiment db))"
  shows "map_of (map (\<lambda>(k, v). (or_unknown k, v)) (group_count fb_sentiment db)) l =
         (if filter (\<lambda>f. or_unknown (fb_sentiment f) = l) db = [] then None
          else Some (length (filter (\<lambda>f. or_unknown (fb_sentiment f) = l) db)))"
proof -
  let ?ks = "remdups (map fb_sentiment db)"
  let ?c = "\<lambda>k. length (filter (\<lambda>r. fb_sentiment r = k) db)"
  have g: "map (\<lambda>(k, v). (or_unknown k, v)) (group_count fb_sentiment db) =
           map (\<lambda>k. (or_unknown k, ?c k)) ?ks"
    by (simp add: group_count_def comp_def)
  have inj: "inj_on or_unknown (set ?ks)" using assms by simp
  show ?thesis
  proof (cases "filter (\<lambda>f. or_unknown (fb_sentiment f) = l) db = []")
    case True
    then have "l \<notin> or_unknown ` set ?ks"
      by (auto simp: filter_empty_conv)
    then have "map_of (map (\<lambda>k. (or_unknown k, ?c k)) ?ks) l = None"
      by (simp add: map_of_eq_None_iff image_image)
    with True g show ?thesis by simp
  next
    case False
    then obtain f where f: "f \<in> set db" "or_unknown (fb_sentiment f) = l"
      by (auto simp: filter_empty_conv)
    let ?k = "fb_sentiment f"
    have k: "?k \<in> set ?ks" using f by simp
    have "fb_sentiment x = ?k \<longleftrightarrow> or_unknown (fb_sentiment x) = l" if "x \<in> set db" for x
      using that f assms by (auto simp: inj_on_def)
    then have "filter (\<lambda>r. fb_sentiment r = ?k) db = filter (\<lambda>r. or_unknown (fb_sentiment r) = l) db"
      by (intro filter_cong refl)
    then have "?c ?k = length (filter (\<lambda>r. or_unknown (fb_sentiment r) = l) db)"
      by (simp only:)
    with map_of_inj_keys [OF inj k, of ?c] f False g show ?thesis by simp
  qed
qed

lemma get_stats_sum_inj:
  assumes "inj_on or_unknown (set (map fb_sentiment db))"
  shows "sum_list (map snd (sentiment_counts (get_stats utcnow db))) =
           total_feedback (get_stats utcnow db) \<and>
         total_feedback (get_stats utcnow db) = length db \<and>
         (\<forall>l. map_of (sentiment_counts (get_stats utcnow db)) l =
                (if filter (\<lambda>f. or_unknown (fb_sentiment f) = l) db = [] then None
                 else Some (length (filter (\<lambda>f. or_unknown (fb_sentiment f) = l) db))))"
proof -
  have t: "total_feedback (get_stats utcnow db) = length db"
    by (simp add: get_stats_def Let_def)
  have "map snd (map (\<lambda>(k, v). (or_unknown k, v)) (group_count fb_sentiment db)) =
        map snd (group_count fb_sentiment db)"
    by (simp add: comp_def case_prod_unfold)
  then have "sum_list (map snd (sentiment_counts (get_stats utcnow db))) = length db"
    by (simp only: sentiment_dict [OF assms] group_count_total)
  with t sentiment_lookup [OF assms] sentiment_dict [OF assms, of utcnow] show ?thesis
    by simp
qed

lemma valid_sentiments_inj:
  assumes "\<forall>f\<in>set db. fb_sentiment f = None \<or> (\<exists>s\<in>set VALID_SENTIMENTS. fb_sentiment f = Some s)"
  shows "inj_on or_unknown (set (map fb_sentiment db))"
proof (rule inj_onI)
  fix a b
  assume "a \<in> set (map fb_sentiment db)" "b \<in> set (map fb_sentiment db)"
  with assms have "a = None \<or> (\<exists>s\<in>set VALID_SENTIMENTS. a = Some s)"
    "b = None \<or> (\<exists>s\<in>set VALID_SENTIMENTS. b = Some s)"
    by auto
  moreover assume "or_unknown a = or_unknown b"
  ultimately show "a = b"
    by (auto simp: or_unknown_def VALID_SENTIMENTS_def)
qed

lemma unknown_is_null:
  assumes "fb_sentiment f = None \<or> (\<exists>s\<in>set VALID_SENTIMENTS. fb_sentiment f = Some s)"
  shows "or_unknown (fb_sentiment f) = ''unknown'' \<longleftrightarrow> fb_sentiment f = None"
  using assms by (auto simp: or_unknown_def VALID_SENTIMENTS_def)

text \<open>
  C9: for every store whose records carry a null sentiment or one of the valid labels
  (the invariant of the data model), the sentiment counts of \<open>get_stats\<close> sum to the
  returned total, the total is the number of records, every label maps to the number
  of records rendered under it, and "unknown" maps to the number of records whose
  sentiment is null.
\<close>

theorem get_stats_sentiment_sum:
  assumes "\<forall>f\<in>set db. fb_sentiment f = None \<or> (\<exists>s\<in>set VALID_SENTIMENTS. fb_sentiment f = Some s)"
  shows "sum_list (map snd (sentiment_counts (get_stats utcnow db))) =
           total_feedback (get_stats utcnow db) \<and>
         total_feedback (get_stats utcnow db) = length db \<and>
         (\<forall>l. map_of (sentiment_counts (get_stats utcnow db)) l =
                (if filter (\<lambda>f. or_unknown (fb_sentiment f) = l) db = [] then None
                 else Some (length (filter (\<lambda>f. or_unknown (fb_sentiment f) = l) db)))) \<and>
         map_of (sentiment_counts (get_stats utcnow db)) ''unknown'' =
           (if filter (\<lambda>f. fb_sentiment f = None) db = [] then None
            else Some (length (filter (\<lambda>f. fb_sentiment f = None) db)))"
proof -
  note g = get_stats_sum_inj [OF valid_sentiments_inj [OF assms], of utcnow]
  have "filter (\<lambda>f. or_unknown (fb_sentiment f) = ''unknown'') db =
        filter (\<lambda>f. fb_sentiment f = None) db"
    using assms by (intro filter_cong refl unknown_is_null) blast
  with g show ?thesis by simp
qed

theorem get_stats_sentiment_sum_witness:
  "map fb_sentiment db3 = [Some ''negative'', Some ''positive'', None] \<and>
   sum_list (map snd (sentiment_counts (get_stats 100 db3))) = 3 \<and>
   total_feedback (get_stats 100 db3) = 3 \<and>
   map_of (sentiment_counts (get_stats 100 db3)) ''unknown'' = Some 1"
proof -
  have h: "\<forall>f\<in>set db3. fb_sentiment f = None \<or> (\<exists>s\<in>set VALID_SENTIMENTS. fb_sentiment f = Some s)"
    by (simp add: db3_def VALID_SENTIMENTS_def)
  have l: "length db3 = 3" by (simp add: db3_def)
  have u: "filter (\<lambda>f. fb_sentiment f = None) db3 = [db3 ! 2]" by code_simp
  from get_stats_sentiment_sum [OF h, of 100]
  have "sum_list (map snd (sentiment_counts (get_stats 100 db3))) =
          total_feedback (get_stats 100 db3)"
    and "total_feedback (get_stats 100 db3) = length db3"
    and "map_of (sentiment_counts (get_stats 100 db3)) ''unknown'' =
           (if filter (\<lambda>f. fb_sentiment f = None) db3 = [] then None
            else Some (length (filter (\<lambda>f. fb_sentiment f = None) db3)))"
    by blast+
  moreover have "map fb_sentiment db3 = [Some ''negative'', Some ''positive'', None]"
    by (simp add: db3_def)
  ultimately show ?thesis using l u by simp
qed

end
